theory Spec2Isabelle
  imports Main "HOL-Library.Word"
begin

section \<open>The clock and reset generator of the ZCU104 target\<close>

text \<open>
  The class \<^verbatim>\<open>_CRG\<close> of \<^verbatim>\<open>litex_boards/community/targets/zcu104.py\<close> builds
  five clock domains around one MMCM and sequences the release of the reset of the
  \<^verbatim>\<open>sys\<close> domain with two six-bit countdowns, one clocked by \<^verbatim>\<open>clk200\<close> and one
  clocked by \<^verbatim>\<open>ic\<close> (whose clock is the \<^verbatim>\<open>sys\<close> clock).

  The registers of the two synchronous blocks are the state; one tick of a clock is a
  function from state to state. The MMCM, the IDELAYCTRL and migen's
  \<^verbatim>\<open>AsyncResetSynchronizer\<close> are primitives from outside the repository: the first two
  appear as input pins, the third through the one property the design relies on (see
  \<open>cd_clk200_rst\<close> below).
\<close>

subsection \<open>Clock domains\<close>

text \<open>
  A migen \<^verbatim>\<open>ClockDomain(name, reset_less)\<close> owns the signal \<^verbatim>\<open>name_clk\<close> and, unless
  it is built \<^verbatim>\<open>reset_less\<close>, the signal \<^verbatim>\<open>name_rst\<close>; a reset-less domain has
  \<^verbatim>\<open>rst = None\<close>.
\<close>

record clock_domain =
  cd_name :: string
  cd_clk :: string
  cd_rst :: "string option"

definition ClockDomain :: "string \<Rightarrow> bool \<Rightarrow> clock_domain" where
  "ClockDomain name reset_less =
     \<lparr>cd_name = name, cd_clk = name @ ''_clk'',
      cd_rst = (if reset_less then None else Some (name @ ''_rst''))\<rparr>"

text \<open>The five domains in the order in which \<^verbatim>\<open>_CRG.__init__\<close> creates them.\<close>

definition cd_sys :: clock_domain where "cd_sys = ClockDomain ''sys'' False"
definition cd_sys4x :: clock_domain where "cd_sys4x = ClockDomain ''sys4x'' True"
definition cd_clk200 :: clock_domain where "cd_clk200 = ClockDomain ''clk200'' False"
definition cd_ic :: clock_domain where "cd_ic = ClockDomain ''ic'' False"
definition cd_pll4x :: clock_domain where "cd_pll4x = ClockDomain ''pll4x'' True"

definition crg_clock_domains :: "clock_domain list" where
  "crg_clock_domains = [cd_sys, cd_sys4x, cd_clk200, cd_ic, cd_pll4x]"

text \<open>
  A domain is held in reset when it has a reset signal and that signal is high; \<open>val\<close>
  gives the level of every signal by name. Without a reset signal there is nothing to
  hold the domain with.
\<close>

definition held_in_reset :: "(string \<Rightarrow> bool) \<Rightarrow> clock_domain \<Rightarrow> bool" where
  "held_in_reset val d = (case cd_rst d of None \<Rightarrow> False | Some r \<Rightarrow> val r)"

subsection \<open>Registers and pins\<close>

text \<open>
  \<^verbatim>\<open>Signal(max=64, reset=63)\<close> is six bits wide. The reset value of a signal is also its
  value when the bitstream is loaded, and \<^verbatim>\<open>self.cd_sys.rst.reset = 1\<close> makes the
  \<^verbatim>\<open>sys\<close> reset start asserted.
\<close>

record crg =
  ic_reset_counter :: "6 word"
  ic_reset :: bool
  ic_rdy_counter :: "6 word"
  sys_rst :: bool

definition crg_init :: crg where
  "crg_init = \<lparr>ic_reset_counter = 63, ic_reset = True, ic_rdy_counter = 63, sys_rst = True\<rparr>"

text \<open>
  The asynchronous inputs: \<^verbatim>\<open>pll.locked\<close>, the board's \<^verbatim>\<open>cpu_reset\<close> button and the
  \<^verbatim>\<open>RDY\<close> output of the IDELAYCTRL (connected only when \<^verbatim>\<open>with_sdram\<close> holds).
\<close>

record pins =
  pll_locked :: bool
  cpu_reset :: bool
  idelayctrl_rdy :: bool

subsection \<open>The two synchronous blocks\<close>

text \<open>
  migen wraps the statements of a domain that has a reset in
  \<^verbatim>\<open>If(rst, <every driven signal>.eq(<its reset value>)).Else(<statements>)\<close>.
  \<open>rst\<close> is the level of the domain's reset at the clock edge.

  \<^verbatim>\<open>
  self.sync.clk200 += \
      If(ic_reset_counter != 0,
          ic_reset_counter.eq(ic_reset_counter - 1)
      ).Else(
          ic_reset.eq(0)
      )
  \<close>
\<close>

definition clk200_sync :: "bool \<Rightarrow> crg \<Rightarrow> crg" where
  "clk200_sync rst s =
     (if rst then s\<lparr>ic_reset_counter := 63, ic_reset := True\<rparr>
      else if ic_reset_counter s \<noteq> 0
           then s\<lparr>ic_reset_counter := ic_reset_counter s - 1\<rparr>
           else s\<lparr>ic_reset := False\<rparr>)"

text \<open>
  \<^verbatim>\<open>
  self.sync.ic += [
      If(ic_rdy,
          If(ic_rdy_counter != 0,
              ic_rdy_counter.eq(ic_rdy_counter - 1)
          ).Else(
              self.cd_sys.rst.eq(0)
          )
      )
  ]
  \<close>
\<close>

definition ic_sync :: "bool \<Rightarrow> bool \<Rightarrow> crg \<Rightarrow> crg" where
  "ic_sync rst rdy s =
     (if rst then s\<lparr>ic_rdy_counter := 63, sys_rst := True\<rparr>
      else if rdy
           then (if ic_rdy_counter s \<noteq> 0
                 then s\<lparr>ic_rdy_counter := ic_rdy_counter s - 1\<rparr>
                 else s\<lparr>sys_rst := False\<rparr>)
           else s)"

text \<open>
  \<^verbatim>\<open>ic_rdy\<close> is the IDELAYCTRL's \<^verbatim>\<open>RDY\<close> when \<^verbatim>\<open>with_sdram\<close> holds and the
  constant 1 otherwise.
\<close>

definition ic_rdy :: "bool \<Rightarrow> pins \<Rightarrow> bool" where
  "ic_rdy with_sdram p = (if with_sdram then idelayctrl_rdy p else True)"

subsection \<open>Domain resets\<close>

text \<open>
  \<^verbatim>\<open>AsyncResetSynchronizer(cd, a)\<close> drives \<^verbatim>\<open>cd.rst\<close>: high at once, without a clock,
  whenever \<open>a\<close> is high, and low again only some edges of \<^verbatim>\<open>cd.clk\<close> after \<open>a\<close> has
  gone low. How many edges is the primitive's business, so the level its flip-flops still
  hold at an edge is an input of the model, \<open>hold\<close>; nothing is assumed about it.

  \<^verbatim>\<open>AsyncResetSynchronizer(self.cd_clk200, ~pll.locked | cpu_reset)\<close> and
  \<^verbatim>\<open>AsyncResetSynchronizer(self.cd_ic, ic_reset)\<close>:
\<close>

definition cd_clk200_rst :: "pins \<Rightarrow> bool \<Rightarrow> bool" where
  "cd_clk200_rst p hold = (\<not> pll_locked p \<or> cpu_reset p \<or> hold)"

definition cd_ic_rst :: "crg \<Rightarrow> bool \<Rightarrow> bool" where
  "cd_ic_rst s hold = (ic_reset s \<or> hold)"

subsection \<open>Events and runs\<close>

text \<open>
  The two clocks come from the same MMCM at different frequencies, so an edge of one, of
  the other, or of both at once can happen. Every event carries the pins at that instant
  and the \<open>hold\<close> level of the synchronizer of each domain that ticks. On a common edge
  both blocks read the registers as they were before the edge.
\<close>

datatype event = Clk200 pins bool | Ic pins bool | Both pins bool bool

fun step :: "bool \<Rightarrow> event \<Rightarrow> crg \<Rightarrow> crg" where
  "step with_sdram (Clk200 p h) s = clk200_sync (cd_clk200_rst p h) s"
| "step with_sdram (Ic p h) s = ic_sync (cd_ic_rst s h) (ic_rdy with_sdram p) s"
| "step with_sdram (Both p h200 hic) s =
     ic_sync (cd_ic_rst s hic) (ic_rdy with_sdram p) (clk200_sync (cd_clk200_rst p h200) s)"

fun run :: "bool \<Rightarrow> event list \<Rightarrow> crg \<Rightarrow> crg" where
  "run with_sdram [] s = s"
| "run with_sdram (e # es) s = run with_sdram es (step with_sdram e s)"

text \<open>The pins an event carries, and which clocks have an edge in it.\<close>

fun pins_of :: "event \<Rightarrow> pins" where
  "pins_of (Clk200 p h) = p"
| "pins_of (Ic p h) = p"
| "pins_of (Both p h200 hic) = p"

fun ticks_clk200 :: "event \<Rightarrow> bool" where
  "ticks_clk200 (Clk200 p h) = True"
| "ticks_clk200 (Ic p h) = False"
| "ticks_clk200 (Both p h200 hic) = True"

fun ticks_ic :: "event \<Rightarrow> bool" where
  "ticks_ic (Clk200 p h) = False"
| "ticks_ic (Ic p h) = True"
| "ticks_ic (Both p h200 hic) = True"

text \<open>The level of \<^verbatim>\<open>cd_ic.rst\<close> that the \<^verbatim>\<open>ic\<close> block samples at an event.\<close>

fun ic_rst_at :: "event \<Rightarrow> crg \<Rightarrow> bool" where
  "ic_rst_at (Clk200 p h) s = False"
| "ic_rst_at (Ic p h) s = cd_ic_rst s h"
| "ic_rst_at (Both p h200 hic) s = cd_ic_rst s hic"

text \<open>The level of \<^verbatim>\<open>cd_clk200.rst\<close> that the \<^verbatim>\<open>clk200\<close> block samples at an event.\<close>

fun clk200_rst_at :: "event \<Rightarrow> bool" where
  "clk200_rst_at (Clk200 p h) = cd_clk200_rst p h"
| "clk200_rst_at (Ic p h) = False"
| "clk200_rst_at (Both p h200 hic) = cd_clk200_rst p h200"

text \<open>Whether the synchronizers of the domains that tick have let go of their reset.\<close>

fun syncs_released :: "event \<Rightarrow> bool" where
  "syncs_released (Clk200 p h) = (\<not> h)"
| "syncs_released (Ic p h) = (\<not> h)"
| "syncs_released (Both p h200 hic) = (\<not> h200 \<and> \<not> hic)"

text \<open>An \<^verbatim>\<open>ic\<close> edge on which the block is out of reset and samples \<^verbatim>\<open>ic_rdy\<close> high.\<close>

definition observes_rdy :: "bool \<Rightarrow> event \<Rightarrow> crg \<Rightarrow> bool" where
  "observes_rdy with_sdram e s =
     (ticks_ic e \<and> \<not> ic_rst_at e s \<and> ic_rdy with_sdram (pins_of e))"

text \<open>
  Whether some edge of a run, started in \<open>s\<close>, is an \<^verbatim>\<open>ic\<close> edge out of reset that
  samples \<^verbatim>\<open>ic_rdy\<close> high.
\<close>

fun rdy_seen :: "bool \<Rightarrow> event list \<Rightarrow> crg \<Rightarrow> bool" where
  "rdy_seen with_sdram [] s = False"
| "rdy_seen with_sdram (e # es) s =
     (observes_rdy with_sdram e s \<or> rdy_seen with_sdram es (step with_sdram e s))"

text \<open>Pins of the scenarios: locked and no reset request; reset requested; lock lost.\<close>

definition pins_run :: pins where
  "pins_run = \<lparr>pll_locked = True, cpu_reset = False, idelayctrl_rdy = True\<rparr>"

definition pins_not_rdy :: pins where
  "pins_not_rdy = \<lparr>pll_locked = True, cpu_reset = False, idelayctrl_rdy = False\<rparr>"

definition pins_cpu_reset :: pins where
  "pins_cpu_reset = \<lparr>pll_locked = True, cpu_reset = True, idelayctrl_rdy = True\<rparr>"

definition pins_unlocked :: pins where
  "pins_unlocked = \<lparr>pll_locked = False, cpu_reset = False, idelayctrl_rdy = True\<rparr>"

text \<open>
  The shortest way out of reset: 64 edges of \<^verbatim>\<open>clk200\<close>, then 64 edges of
  \<^verbatim>\<open>ic\<close>, both synchronizers released throughout.
\<close>

definition release_run :: "event list" where
  "release_run = replicate 64 (Clk200 pins_run False) @ replicate 64 (Ic pins_run False)"

text \<open>
  The level of the signals of the design by name, in a state and under given pins and
  synchronizer levels; a name that the design does not have reads low.
\<close>

definition crg_signals :: "crg \<Rightarrow> pins \<Rightarrow> bool \<Rightarrow> bool \<Rightarrow> string \<Rightarrow> bool" where
  "crg_signals s p h200 hic name =
     (if name = ''sys_rst'' then sys_rst s
      else if name = ''clk200_rst'' then cd_clk200_rst p h200
      else if name = ''ic_rst'' then cd_ic_rst s hic
      else if name = ''ic_reset'' then ic_reset s
      else if name = ''cpu_reset'' then cpu_reset p
      else if name = ''pll_locked'' then pll_locked p
      else False)"

text \<open>
  Two states of the nominal sequence: the first countdown done and \<^verbatim>\<open>ic_reset\<close>
  released with the second stage still armed; and everything released.
\<close>

definition stage1_complete :: crg where
  "stage1_complete =
     \<lparr>ic_reset_counter = 0, ic_reset = False, ic_rdy_counter = 63, sys_rst = True\<rparr>"

definition released :: crg where
  "released =
     \<lparr>ic_reset_counter = 0, ic_reset = False, ic_rdy_counter = 0, sys_rst = False\<rparr>"

text \<open>
  Two facts that every tick keeps: \<^verbatim>\<open>ic_reset\<close> is low only with the first
  countdown at 0, and the \<^verbatim>\<open>sys\<close> reset is low only with the second at 0.
\<close>

definition seq_inv :: "crg \<Rightarrow> bool" where
  "seq_inv s =
     ((\<not> ic_reset s \<longrightarrow> ic_reset_counter s = 0) \<and> (\<not> sys_rst s \<longrightarrow> ic_rdy_counter s = 0))"

subsection \<open>The reset controller as the specification words it\<close>

text \<open>
  The specification's \<^verbatim>\<open>apply(sequencerReleased, externalResetRequested)\<close>, written
  from its words and not from the source, to be compared with the register \<open>sys_rst\<close>.
\<close>

definition domainResetBit_spec :: "bool \<Rightarrow> bool \<Rightarrow> bool" where
  "domainResetBit_spec sequencerReleased externalResetRequested =
     (externalResetRequested \<or> \<not> sequencerReleased)"

section \<open>Basic facts\<close>

lemma run_append: "run w (es @ fs) s = run w fs (run w es s)"
  by (induction es arbitrary: s) simp_all

lemma run_snoc: "run w (es @ [e]) s = step w e (run w es s)"
  by (simp add: run_append)

lemma unat_le_63: "unat c \<le> 63" for c :: "6 word"
proof -
  have "unat c < 2 ^ LENGTH(6)" by (rule unsigned_less)
  then show ?thesis by simp
qed

lemma dec_unat: "c \<noteq> 0 \<Longrightarrow> unat (c - 1) = unat c - 1" for c :: "6 word"
  by (simp add: unat_minus_one)

lemma nz_unat: "c \<noteq> 0 \<Longrightarrow> 0 < unat c" for c :: "6 word"
  by (simp add: unat_gt_0)










text \<open>The two facts of \<open>seq_inv\<close> hold in every state a run reaches.\<close>

lemma seq_inv_init: "seq_inv crg_init"
  by (simp add: seq_inv_def crg_init_def)

lemma seq_inv_step: "seq_inv s \<Longrightarrow> seq_inv (step w e s)"
  by (cases e) (auto simp: seq_inv_def clk200_sync_def ic_sync_def)

lemma seq_inv_run: "seq_inv s \<Longrightarrow> seq_inv (run w es s)"
  by (induction es arbitrary: s) (simp_all add: seq_inv_step del: step.simps)

lemma release_step:
  "sys_rst s \<Longrightarrow> \<not> sys_rst (step w e s) \<Longrightarrow>
   observes_rdy w e s \<and> ic_rdy_counter s = 0 \<and> \<not> ic_reset s"
  by (cases e) (auto simp: observes_rdy_def clk200_sync_def ic_sync_def cd_ic_rst_def split: if_splits)

text \<open>An edge that does not observe readiness leaves the second countdown alone or reloads it.\<close>

lemma quiet_step:
  "\<not> observes_rdy w e s \<Longrightarrow>
   ic_rdy_counter (step w e s) = ic_rdy_counter s \<or> ic_rdy_counter (step w e s) = 63"
  by (cases e) (auto simp: observes_rdy_def clk200_sync_def ic_sync_def)

lemma quiet_run:
  "\<not> rdy_seen w es s \<Longrightarrow>
   ic_rdy_counter (run w es s) = ic_rdy_counter s \<or> ic_rdy_counter (run w es s) = 63"
proof (induction es arbitrary: s)
  case Nil
  then show ?case by simp
next
  case (Cons e es)
  from Cons.prems have q: "\<not> observes_rdy w e s" and r: "\<not> rdy_seen w es (step w e s)"
    by simp_all
  from Cons.IH [OF r] quiet_step [OF q] show ?case
    by (auto simp del: step.simps)
qed

section \<open>Release needs both delays and readiness\<close>

text \<open>
  Claim C1. A run from the armed state that ends with the \<^verbatim>\<open>sys\<close> reset low has the
  second countdown at 0 and contains the edge that released the reset: an \<^verbatim>\<open>ic\<close>
  edge, out of reset, that sampled \<^verbatim>\<open>ic_rdy\<close> high in a state where the first
  countdown was 0 with \<^verbatim>\<open>ic_reset\<close> low and the second countdown was 0; from that
  edge to the end of the run the reset stayed low. So no sequence of ticks releases the
  \<^verbatim>\<open>sys\<close> domain without both delays and the readiness condition before it.
\<close>

theorem release_only_after_both_delays_and_ready:
  assumes "\<not> sys_rst (run w es crg_init)"
  shows "ic_rdy_counter (run w es crg_init) = 0 \<and>
    (\<exists>es1 e es2. es = es1 @ e # es2 \<and>
       sys_rst (run w es1 crg_init) \<and>
       ic_reset_counter (run w es1 crg_init) = 0 \<and>
       \<not> ic_reset (run w es1 crg_init) \<and>
       ic_rdy_counter (run w es1 crg_init) = 0 \<and>
       observes_rdy w e (run w es1 crg_init) \<and>
       (\<forall>k \<le> length es2. \<not> sys_rst (run w (es1 @ e # take k es2) crg_init)))"
proof
  have "seq_inv (run w es crg_init)" by (rule seq_inv_run [OF seq_inv_init])
  with assms show "ic_rdy_counter (run w es crg_init) = 0" by (simp add: seq_inv_def)
next
  from assms show "\<exists>es1 e es2. es = es1 @ e # es2 \<and>
       sys_rst (run w es1 crg_init) \<and>
       ic_reset_counter (run w es1 crg_init) = 0 \<and>
       \<not> ic_reset (run w es1 crg_init) \<and>
       ic_rdy_counter (run w es1 crg_init) = 0 \<and>
       observes_rdy w e (run w es1 crg_init) \<and>
       (\<forall>k \<le> length es2. \<not> sys_rst (run w (es1 @ e # take k es2) crg_init))"
  proof (induction es rule: rev_induct)
    case Nil
    then show ?case by (simp add: crg_init_def)
  next
    case (snoc x xs)
    let ?t = "run w xs crg_init"
    have low: "\<not> sys_rst (step w x ?t)" using snoc.prems by (simp add: run_snoc del: step.simps)
    show ?case
    proof (cases "sys_rst ?t")
      case True
      from release_step [OF True low]
      have r: "observes_rdy w x ?t" "ic_rdy_counter ?t = 0" "\<not> ic_reset ?t" by simp_all
      have "seq_inv ?t" by (rule seq_inv_run [OF seq_inv_init])
      with r(3) have c1: "ic_reset_counter ?t = 0" by (simp add: seq_inv_def)
      have "\<forall>k \<le> length ([]::event list). \<not> sys_rst (run w (xs @ x # take k []) crg_init)"
        using snoc.prems by simp
      with True c1 r show ?thesis by blast
    next
      case False
      from snoc.IH [OF False] obtain es1 e es2 where
        eq: "xs = es1 @ e # es2" and
        p: "sys_rst (run w es1 crg_init)" "ic_reset_counter (run w es1 crg_init) = 0"
           "\<not> ic_reset (run w es1 crg_init)" "ic_rdy_counter (run w es1 crg_init) = 0"
           "observes_rdy w e (run w es1 crg_init)" and
        stay: "\<forall>k \<le> length es2. \<not> sys_rst (run w (es1 @ e # take k es2) crg_init)"
        by blast
      have "\<forall>k \<le> length (es2 @ [x]). \<not> sys_rst (run w (es1 @ e # take k (es2 @ [x])) crg_init)"
      proof (intro allI impI)
        fix k assume k: "k \<le> length (es2 @ [x])"
        show "\<not> sys_rst (run w (es1 @ e # take k (es2 @ [x])) crg_init)"
        proof (cases "k \<le> length es2")
          case True
          with stay show ?thesis by simp
        next
          case False
          with k have "take k (es2 @ [x]) = es2 @ [x]" by simp
          with snoc.prems eq show ?thesis by simp
        qed
      qed
      moreover have "xs @ [x] = es1 @ e # (es2 @ [x])" using eq by simp
      ultimately show ?thesis using p by blast
    qed
  qed
qed

theorem release_only_after_both_delays_and_ready_witness:
  "\<not> sys_rst (run False release_run crg_init) \<and>
   (ic_rdy_counter (run False release_run crg_init) = 0 \<and>
    (\<exists>es1 e es2. release_run = es1 @ e # es2 \<and>
       sys_rst (run False es1 crg_init) \<and>
       ic_reset_counter (run False es1 crg_init) = 0 \<and>
       \<not> ic_reset (run False es1 crg_init) \<and>
       ic_rdy_counter (run False es1 crg_init) = 0 \<and>
       observes_rdy False e (run False es1 crg_init) \<and>
       (\<forall>k \<le> length es2. \<not> sys_rst (run False (es1 @ e # take k es2) crg_init))))"
proof -
  have h: "\<not> sys_rst (run False release_run crg_init)" by code_simp
  from h release_only_after_both_delays_and_ready [OF h] show ?thesis by (rule conjI)
qed

section \<open>The nominal scenario\<close>



section \<open>External reset\<close>




section \<open>Readiness gates the second countdown\<close>

text \<open>
  Claim C3. On an \<^verbatim>\<open>ic\<close> edge that samples \<^verbatim>\<open>ic_rdy\<close> low the second countdown keeps
  its value (or is reloaded to 63 when the domain's reset is high at the edge); whenever
  an event makes its value smaller, that event is an \<^verbatim>\<open>ic\<close> edge out of reset that
  sampled \<^verbatim>\<open>ic_rdy\<close> high; and as long as no edge of a run from the armed state has
  done so, the countdown still reads 63.
\<close>

theorem countdown2_waits_for_ready:
  "(ticks_ic e \<and> \<not> ic_rdy w (pins_of e) \<longrightarrow>
      ic_rdy_counter (step w e s) = ic_rdy_counter s \<or> ic_rdy_counter (step w e s) = 63) \<and>
   (unat (ic_rdy_counter (step w e s)) < unat (ic_rdy_counter s) \<longrightarrow> observes_rdy w e s) \<and>
   (\<not> rdy_seen w es crg_init \<longrightarrow> ic_rdy_counter (run w es crg_init) = 63)"
proof (intro conjI impI)
  assume "ticks_ic e \<and> \<not> ic_rdy w (pins_of e)"
  then have "\<not> observes_rdy w e s" by (simp add: observes_rdy_def)
  then show "ic_rdy_counter (step w e s) = ic_rdy_counter s \<or> ic_rdy_counter (step w e s) = 63"
    by (rule quiet_step)
next
  assume less: "unat (ic_rdy_counter (step w e s)) < unat (ic_rdy_counter s)"
  show "observes_rdy w e s"
  proof (rule ccontr)
    assume "\<not> observes_rdy w e s"
    from quiet_step [OF this] less unat_le_63 [of "ic_rdy_counter s"]
    show False by (auto simp del: step.simps)
  qed
next
  assume "\<not> rdy_seen w es crg_init"
  from quiet_run [OF this] show "ic_rdy_counter (run w es crg_init) = 63"
    by (auto simp: crg_init_def)
qed

theorem countdown2_waits_for_ready_witness:
  "(ticks_ic (Ic pins_not_rdy False) \<and> \<not> ic_rdy True (pins_of (Ic pins_not_rdy False))) \<and>
   (ic_rdy_counter (step True (Ic pins_not_rdy False) stage1_complete) =
      ic_rdy_counter stage1_complete \<or>
    ic_rdy_counter (step True (Ic pins_not_rdy False) stage1_complete) = 63) \<and>
   unat (ic_rdy_counter (step True (Ic pins_run False) stage1_complete)) <
     unat (ic_rdy_counter stage1_complete) \<and>
   observes_rdy True (Ic pins_run False) stage1_complete \<and>
   \<not> rdy_seen True
      (replicate 64 (Clk200 pins_run False) @ replicate 5 (Ic pins_not_rdy False)) crg_init \<and>
   ic_rdy_counter
     (run True (replicate 64 (Clk200 pins_run False) @ replicate 5 (Ic pins_not_rdy False))
        crg_init) = 63"
proof -
  have a: "ticks_ic (Ic pins_not_rdy False) \<and> \<not> ic_rdy True (pins_of (Ic pins_not_rdy False))"
    by code_simp
  have b: "unat (ic_rdy_counter (step True (Ic pins_run False) stage1_complete)) <
     unat (ic_rdy_counter stage1_complete)"
    by code_simp
  have c: "\<not> rdy_seen True
      (replicate 64 (Clk200 pins_run False) @ replicate 5 (Ic pins_not_rdy False)) crg_init"
    by code_simp
  note r1 = countdown2_waits_for_ready [of "Ic pins_not_rdy False" True stage1_complete "[]",
      THEN conjunct1, THEN mp, OF a]
  note r2 = countdown2_waits_for_ready [of "Ic pins_run False" True stage1_complete "[]",
      THEN conjunct2, THEN conjunct1, THEN mp, OF b]
  note r3 = countdown2_waits_for_ready [of "Ic pins_run False" True stage1_complete
      "replicate 64 (Clk200 pins_run False) @ replicate 5 (Ic pins_not_rdy False)",
      THEN conjunct2, THEN conjunct2, THEN mp, OF c]
  show ?thesis
    by (rule conjI [OF a conjI [OF r1 conjI [OF b conjI [OF r2 conjI [OF c r3]]]]])
qed

section \<open>Release of the sys reset\<close>

text \<open>
  Two ways in which the release differs from \<open>one tick after the countdown reaches 0,
  then low until the next external reset\<close>. With the calibration subsystem present, the
  second countdown reaches 0 on the 63rd edge; if the 64th \<^verbatim>\<open>ic\<close> edge samples
  \<^verbatim>\<open>ic_rdy\<close> low the \<^verbatim>\<open>sys\<close> reset stays high. And from the released state, with
  \<^verbatim>\<open>cpu_reset\<close> never asserted, loss of PLL lock re-arms the first stage on the next
  \<^verbatim>\<open>clk200\<close> edge and raises the \<^verbatim>\<open>sys\<close> reset on the \<^verbatim>\<open>ic\<close> edge after it.
\<close>

theorem sys_rst_late_release_and_relock_counterexample:
  "run True (replicate 64 (Clk200 pins_run False) @ replicate 62 (Ic pins_run False)) crg_init =
     \<lparr>ic_reset_counter = 0, ic_reset = False, ic_rdy_counter = 1, sys_rst = True\<rparr> \<and>
   run True (replicate 64 (Clk200 pins_run False) @ replicate 63 (Ic pins_run False)) crg_init =
     \<lparr>ic_reset_counter = 0, ic_reset = False, ic_rdy_counter = 0, sys_rst = True\<rparr> \<and>
   run True (replicate 64 (Clk200 pins_run False) @ replicate 63 (Ic pins_run False) @
             [Ic pins_not_rdy False]) crg_init =
     \<lparr>ic_reset_counter = 0, ic_reset = False, ic_rdy_counter = 0, sys_rst = True\<rparr> \<and>
   run False release_run crg_init = released \<and>
   \<not> cpu_reset pins_run \<and> \<not> cpu_reset pins_unlocked \<and>
   run False (release_run @ [Clk200 pins_unlocked False, Ic pins_unlocked False]) crg_init =
     \<lparr>ic_reset_counter = 63, ic_reset = True, ic_rdy_counter = 63, sys_rst = True\<rparr>"
  by code_simp

text \<open>
  Claim C4, as the code has it. The \<^verbatim>\<open>sys\<close> reset stays high on every edge taken with
  the second countdown not yet 0, and on every edge that does not observe readiness; it
  falls on the first \<^verbatim>\<open>ic\<close> edge, out of reset and sampling \<^verbatim>\<open>ic_rdy\<close> high, that
  finds the countdown at 0. Once low it stays low across every edge on which
  \<^verbatim>\<open>cd_ic\<close>'s reset is not high, and an \<^verbatim>\<open>ic\<close> edge with that reset high raises it
  again; \<^verbatim>\<open>ic_reset\<close>, the source of that reset, rises only on a \<^verbatim>\<open>clk200\<close> edge
  taken with \<^verbatim>\<open>cd_clk200\<close>'s reset high. In particular the released state lasts as
  long as the PLL stays locked, \<^verbatim>\<open>cpu_reset\<close> stays low and the synchronizers stay
  released, whatever \<^verbatim>\<open>ic_rdy\<close> does.
\<close>

theorem sys_rst_release_and_hold:
  "(sys_rst s \<and> ic_rdy_counter s \<noteq> 0 \<longrightarrow> sys_rst (step w e s)) \<and>
   (sys_rst s \<and> \<not> observes_rdy w e s \<longrightarrow> sys_rst (step w e s)) \<and>
   (ic_rdy_counter s = 0 \<and> observes_rdy w e s \<longrightarrow> \<not> sys_rst (step w e s)) \<and>
   (\<not> sys_rst s \<and> \<not> ic_rst_at e s \<longrightarrow> \<not> sys_rst (step w e s)) \<and>
   (ticks_ic e \<and> ic_rst_at e s \<longrightarrow> sys_rst (step w e s)) \<and>
   (\<not> ic_reset s \<and> ic_reset (step w e s) \<longrightarrow> ticks_clk200 e \<and> clk200_rst_at e) \<and>
   (list_all (\<lambda>e. pll_locked (pins_of e) \<and> \<not> cpu_reset (pins_of e) \<and> syncs_released e) es \<longrightarrow>
      run w es released = released)"
proof -
  have edge: "(sys_rst s \<and> ic_rdy_counter s \<noteq> 0 \<longrightarrow> sys_rst (step w e s)) \<and>
   (sys_rst s \<and> \<not> observes_rdy w e s \<longrightarrow> sys_rst (step w e s)) \<and>
   (ic_rdy_counter s = 0 \<and> observes_rdy w e s \<longrightarrow> \<not> sys_rst (step w e s)) \<and>
   (\<not> sys_rst s \<and> \<not> ic_rst_at e s \<longrightarrow> \<not> sys_rst (step w e s)) \<and>
   (ticks_ic e \<and> ic_rst_at e s \<longrightarrow> sys_rst (step w e s)) \<and>
   (\<not> ic_reset s \<and> ic_reset (step w e s) \<longrightarrow> ticks_clk200 e \<and> clk200_rst_at e)"
    by (cases e)
      (auto simp: observes_rdy_def clk200_sync_def ic_sync_def split: if_splits)
  have st: "step w x released = released"
    if "pll_locked (pins_of x) \<and> \<not> cpu_reset (pins_of x) \<and> syncs_released x" for x
    using that
    by (cases x)
      (auto simp: clk200_sync_def ic_sync_def cd_clk200_rst_def cd_ic_rst_def released_def)
  have quiet: "list_all (\<lambda>e. pll_locked (pins_of e) \<and> \<not> cpu_reset (pins_of e) \<and> syncs_released e) es \<longrightarrow>
      run w es released = released"
    by (induction es) (simp_all add: st del: step.simps)
  from edge quiet show ?thesis by (elim conjE) (intro conjI; assumption)
qed

theorem sys_rst_release_and_hold_witness:
  "(ic_rdy_counter
      (run True (replicate 64 (Clk200 pins_run False) @ replicate 63 (Ic pins_run False))
         crg_init) = 0 \<and>
    observes_rdy True (Ic pins_run False)
      (run True (replicate 64 (Clk200 pins_run False) @ replicate 63 (Ic pins_run False))
         crg_init)) \<and>
   \<not> sys_rst (step True (Ic pins_run False)
      (run True (replicate 64 (Clk200 pins_run False) @ replicate 63 (Ic pins_run False))
         crg_init)) \<and>
   (\<not> sys_rst released \<and> \<not> ic_rst_at (Ic pins_not_rdy False) released) \<and>
   \<not> sys_rst (step True (Ic pins_not_rdy False) released) \<and>
   list_all (\<lambda>e. pll_locked (pins_of e) \<and> \<not> cpu_reset (pins_of e) \<and> syncs_released e)
     [Clk200 pins_run False, Ic pins_not_rdy False, Both pins_run False False] \<and>
   run True [Clk200 pins_run False, Ic pins_not_rdy False, Both pins_run False False] released =
     released"
proof -
  have a: "ic_rdy_counter
      (run True (replicate 64 (Clk200 pins_run False) @ replicate 63 (Ic pins_run False))
         crg_init) = 0 \<and>
    observes_rdy True (Ic pins_run False)
      (run True (replicate 64 (Clk200 pins_run False) @ replicate 63 (Ic pins_run False))
         crg_init)"
    by code_simp
  have b: "\<not> sys_rst released \<and> \<not> ic_rst_at (Ic pins_not_rdy False) released"
    by code_simp
  have c: "list_all (\<lambda>e. pll_locked (pins_of e) \<and> \<not> cpu_reset (pins_of e) \<and> syncs_released e)
     [Clk200 pins_run False, Ic pins_not_rdy False, Both pins_run False False]"
    by code_simp
  note r1 = sys_rst_release_and_hold
      [of "run True (replicate 64 (Clk200 pins_run False) @ replicate 63 (Ic pins_run False))
             crg_init"
          True "Ic pins_run False" "[]",
       THEN conjunct2, THEN conjunct2, THEN conjunct1, THEN mp, OF a]
  note r2 = sys_rst_release_and_hold [of released True "Ic pins_not_rdy False" "[]",
      THEN conjunct2, THEN conjunct2, THEN conjunct2, THEN conjunct1, THEN mp, OF b]
  note r3 = sys_rst_release_and_hold [of released True "Ic pins_not_rdy False"
      "[Clk200 pins_run False, Ic pins_not_rdy False, Both pins_run False False]",
      THEN conjunct2, THEN conjunct2, THEN conjunct2, THEN conjunct2, THEN conjunct2,
      THEN conjunct2, THEN mp, OF c]
  show ?thesis
    by (rule conjI [OF a conjI [OF r1 conjI [OF b conjI [OF r2 conjI [OF c r3]]]]])
qed

section \<open>Calibration absent\<close>



section \<open>No lock, no progress\<close>

text \<open>
  Claim C7. A \<^verbatim>\<open>clk200\<close> edge taken while \<^verbatim>\<open>pll.locked\<close> is low reloads the first
  countdown to 63 and keeps \<^verbatim>\<open>ic_reset\<close> high, so the countdown's value does not go
  down; and a run in which the PLL never locks leaves the design in its armed state, the
  \<^verbatim>\<open>sys\<close> reset high, however long it is. Nothing else happens: a step is a total
  function of state and pins and returns no error.
\<close>

theorem no_progress_without_lock:
  "(ticks_clk200 e \<and> \<not> pll_locked (pins_of e) \<longrightarrow>
      ic_reset_counter (step w e s) = 63 \<and> ic_reset (step w e s) \<and>
      unat (ic_reset_counter s) \<le> unat (ic_reset_counter (step w e s))) \<and>
   (list_all (\<lambda>e. \<not> pll_locked (pins_of e)) es \<longrightarrow> run w es crg_init = crg_init)"
proof (rule conjI; rule impI)
  assume a: "ticks_clk200 e \<and> \<not> pll_locked (pins_of e)"
  then have r: "ic_reset_counter (step w e s) = 63 \<and> ic_reset (step w e s)"
    by (cases e) (auto simp: clk200_sync_def ic_sync_def cd_clk200_rst_def)
  moreover have "unat (ic_reset_counter s) \<le> unat (63 :: 6 word)"
    using unat_le_63 [of "ic_reset_counter s"] by simp
  ultimately show "ic_reset_counter (step w e s) = 63 \<and> ic_reset (step w e s) \<and>
      unat (ic_reset_counter s) \<le> unat (ic_reset_counter (step w e s))"
    by (simp del: step.simps)
next
  have st: "\<not> pll_locked (pins_of x) \<Longrightarrow> step w x crg_init = crg_init" for x
    by (cases x) (simp_all add: clk200_sync_def ic_sync_def cd_clk200_rst_def cd_ic_rst_def crg_init_def)
  assume "list_all (\<lambda>e. \<not> pll_locked (pins_of e)) es"
  then show "run w es crg_init = crg_init"
    by (induction es) (simp_all add: st del: step.simps)
qed

theorem no_progress_without_lock_witness:
  "(ticks_clk200 (Clk200 pins_unlocked False) \<and> \<not> pll_locked (pins_of (Clk200 pins_unlocked False))) \<and>
   (ic_reset_counter (step True (Clk200 pins_unlocked False) released) = 63 \<and>
    ic_reset (step True (Clk200 pins_unlocked False) released) \<and>
    unat (ic_reset_counter released) \<le>
      unat (ic_reset_counter (step True (Clk200 pins_unlocked False) released))) \<and>
   list_all (\<lambda>e. \<not> pll_locked (pins_of e))
     [Clk200 pins_unlocked False, Ic pins_unlocked False, Both pins_unlocked False False] \<and>
   run True [Clk200 pins_unlocked False, Ic pins_unlocked False, Both pins_unlocked False False]
     crg_init = crg_init"
proof -
  have a: "ticks_clk200 (Clk200 pins_unlocked False) \<and>
      \<not> pll_locked (pins_of (Clk200 pins_unlocked False))"
    by code_simp
  have b: "list_all (\<lambda>e. \<not> pll_locked (pins_of e))
     [Clk200 pins_unlocked False, Ic pins_unlocked False, Both pins_unlocked False False]"
    by code_simp
  note r1 = no_progress_without_lock [of "Clk200 pins_unlocked False" True released "[]",
      THEN conjunct1, THEN mp, OF a]
  note r2 = no_progress_without_lock [of "Clk200 pins_unlocked False" True released
      "[Clk200 pins_unlocked False, Ic pins_unlocked False, Both pins_unlocked False False]",
      THEN conjunct2, THEN mp, OF b]
  show ?thesis
    by (rule conjI [OF a conjI [OF r1 conjI [OF b r2]]])
qed

section \<open>The sys reset is a register\<close>

text \<open>
  The \<^verbatim>\<open>sys\<close> reset is not the combinational function of the specification: in the
  released state, with \<^verbatim>\<open>cpu_reset\<close> asserted and even after an \<^verbatim>\<open>ic\<close> edge taken
  under it, the register reads low, while \<open>domainResetBit_spec\<close> is high under an
  external reset request whatever its first argument.
\<close>

theorem sys_rst_not_combinational_counterexample:
  "cpu_reset pins_cpu_reset \<and>
   sys_rst (run False (release_run @ [Ic pins_cpu_reset False]) crg_init) \<noteq>
     domainResetBit_spec True (cpu_reset pins_cpu_reset) \<and>
   sys_rst (run False (release_run @ [Ic pins_cpu_reset False]) crg_init) \<noteq>
     domainResetBit_spec False (cpu_reset pins_cpu_reset)"
  by code_simp

text \<open>
  Claim C8, as the code has it. The \<^verbatim>\<open>sys\<close> reset changes only on \<^verbatim>\<open>ic\<close> edges. Its
  value after such an edge is the specification's function of two things sampled at the
  edge: \<^verbatim>\<open>cd_ic\<close>'s reset in the place of the external request, and, as
  \<open>released\<close>, that the register was already low or \<^verbatim>\<open>ic_rdy\<close> is high with the second
  countdown at 0. Between \<^verbatim>\<open>ic\<close> edges it keeps its value, whatever \<^verbatim>\<open>cpu_reset\<close>
  does.
\<close>

theorem sys_rst_is_registered:
  "(ticks_ic e \<longrightarrow>
      sys_rst (step w e s) =
        domainResetBit_spec
          (\<not> sys_rst s \<or> (ic_rdy w (pins_of e) \<and> ic_rdy_counter s = 0)) (ic_rst_at e s)) \<and>
   (\<not> ticks_ic e \<longrightarrow> sys_rst (step w e s) = sys_rst s)"
  by (cases e)
    (auto simp: domainResetBit_spec_def clk200_sync_def ic_sync_def)

theorem sys_rst_is_registered_witness:
  "ticks_ic (Ic pins_cpu_reset False) \<and>
   sys_rst (step False (Ic pins_cpu_reset False) released) =
     domainResetBit_spec
       (\<not> sys_rst released \<or>
        (ic_rdy False (pins_of (Ic pins_cpu_reset False)) \<and> ic_rdy_counter released = 0))
       (ic_rst_at (Ic pins_cpu_reset False) released) \<and>
   \<not> ticks_ic (Clk200 pins_cpu_reset False) \<and>
   sys_rst (step False (Clk200 pins_cpu_reset False) released) = sys_rst released"
proof -
  have a: "ticks_ic (Ic pins_cpu_reset False)" by code_simp
  have b: "\<not> ticks_ic (Clk200 pins_cpu_reset False)" by code_simp
  note r1 = sys_rst_is_registered [of "Ic pins_cpu_reset False" False released, THEN conjunct1, THEN mp, OF a]
  note r2 = sys_rst_is_registered [of "Clk200 pins_cpu_reset False" False released, THEN conjunct2, THEN mp, OF b]
  show ?thesis
    by (rule conjI [OF a conjI [OF r1 conjI [OF b r2]]])
qed

section \<open>The countdowns stop at zero\<close>

text \<open>
  Claim C9. On a \<^verbatim>\<open>clk200\<close> edge out of reset the first countdown, read as a number,
  goes down by exactly one when it is not 0 and stays 0 when it is 0; an edge in reset
  reloads it to 63 and an event without a \<^verbatim>\<open>clk200\<close> edge leaves it alone. The same
  holds for the second countdown on \<^verbatim>\<open>ic\<close> edges that observe readiness. The
  six-bit subtraction therefore never wraps from 0 to 63, and in every state a run
  reaches both values are at most 63.
\<close>

theorem countdowns_saturate_at_zero:
  "(ticks_clk200 e \<and> \<not> clk200_rst_at e \<and> ic_reset_counter s \<noteq> 0 \<longrightarrow>
      unat (ic_reset_counter (step w e s)) + 1 = unat (ic_reset_counter s)) \<and>
   (ticks_clk200 e \<and> \<not> clk200_rst_at e \<and> ic_reset_counter s = 0 \<longrightarrow>
      ic_reset_counter (step w e s) = 0) \<and>
   (ticks_clk200 e \<and> clk200_rst_at e \<longrightarrow> ic_reset_counter (step w e s) = 63) \<and>
   (\<not> ticks_clk200 e \<longrightarrow> ic_reset_counter (step w e s) = ic_reset_counter s) \<and>
   (observes_rdy w e s \<and> ic_rdy_counter s \<noteq> 0 \<longrightarrow>
      unat (ic_rdy_counter (step w e s)) + 1 = unat (ic_rdy_counter s)) \<and>
   (observes_rdy w e s \<and> ic_rdy_counter s = 0 \<longrightarrow> ic_rdy_counter (step w e s) = 0) \<and>
   (ticks_ic e \<and> ic_rst_at e s \<longrightarrow> ic_rdy_counter (step w e s) = 63) \<and>
   (\<not> observes_rdy w e s \<and> \<not> ic_rst_at e s \<longrightarrow>
      ic_rdy_counter (step w e s) = ic_rdy_counter s) \<and>
   unat (ic_reset_counter (run w es crg_init)) \<le> 63 \<and>
   unat (ic_rdy_counter (run w es crg_init)) \<le> 63"
proof -
  have d: "c \<noteq> 0 \<Longrightarrow> Suc (unat (c - 1)) = unat c" for c :: "6 word"
    using nz_unat [of c] by (simp add: dec_unat)
  show ?thesis
    by (cases e)
      (auto simp: observes_rdy_def clk200_sync_def ic_sync_def d unat_le_63)
qed

theorem countdowns_saturate_at_zero_witness:
  "(ticks_clk200 (Clk200 pins_run False) \<and> \<not> clk200_rst_at (Clk200 pins_run False) \<and>
      ic_reset_counter stage1_complete = 0) \<and>
   ic_reset_counter (step False (Clk200 pins_run False) stage1_complete) = 0 \<and>
   (observes_rdy False (Ic pins_run False) released \<and> ic_rdy_counter released = 0) \<and>
   ic_rdy_counter (step False (Ic pins_run False) released) = 0 \<and>
   (ticks_clk200 (Clk200 pins_run False) \<and> \<not> clk200_rst_at (Clk200 pins_run False) \<and>
      ic_reset_counter crg_init \<noteq> 0) \<and>
   unat (ic_reset_counter (step False (Clk200 pins_run False) crg_init)) + 1 =
      unat (ic_reset_counter crg_init)"
proof -
  have a: "ticks_clk200 (Clk200 pins_run False) \<and> \<not> clk200_rst_at (Clk200 pins_run False) \<and>
      ic_reset_counter stage1_complete = 0"
    by code_simp
  have b: "observes_rdy False (Ic pins_run False) released \<and> ic_rdy_counter released = 0"
    by code_simp
  have c: "ticks_clk200 (Clk200 pins_run False) \<and> \<not> clk200_rst_at (Clk200 pins_run False) \<and>
      ic_reset_counter crg_init \<noteq> 0"
    by code_simp
  note r1 = countdowns_saturate_at_zero [of "Clk200 pins_run False" stage1_complete False "[]",
      THEN conjunct2, THEN conjunct1, THEN mp, OF a]
  note r2 = countdowns_saturate_at_zero [of "Ic pins_run False" released False "[]",
      THEN conjunct2, THEN conjunct2, THEN conjunct2, THEN conjunct2, THEN conjunct2,
      THEN conjunct1, THEN mp, OF b]
  note r3 = countdowns_saturate_at_zero [of "Clk200 pins_run False" crg_init False "[]",
      THEN conjunct1, THEN mp, OF c]
  show ?thesis
    by (rule conjI [OF a conjI [OF r1 conjI [OF b conjI [OF r2 conjI [OF c r3]]]]])
qed

section \<open>Domains without a reset\<close>

text \<open>
  Claim C10. \<^verbatim>\<open>cd_sys4x\<close> and \<^verbatim>\<open>cd_pll4x\<close> are built \<^verbatim>\<open>reset_less\<close>: they have no
  reset signal, they are the only two such domains of the five, and no level of any
  signal holds them in reset, whereas \<^verbatim>\<open>cd_sys\<close>, \<^verbatim>\<open>cd_clk200\<close> and
  \<^verbatim>\<open>cd_ic\<close> are held by the \<^verbatim>\<open>sys\<close> reset register and by the two synchronized
  resets.
\<close>

theorem reset_less_domains_never_held:
  "cd_rst cd_sys4x = None \<and> cd_rst cd_pll4x = None \<and>
   \<not> held_in_reset val cd_sys4x \<and> \<not> held_in_reset val cd_pll4x \<and>
   filter (\<lambda>d. cd_rst d = None) crg_clock_domains = [cd_sys4x, cd_pll4x] \<and>
   held_in_reset (crg_signals s p h200 hic) cd_sys = sys_rst s \<and>
   held_in_reset (crg_signals s p h200 hic) cd_clk200 = cd_clk200_rst p h200 \<and>
   held_in_reset (crg_signals s p h200 hic) cd_ic = cd_ic_rst s hic"
  by (simp add: held_in_reset_def crg_clock_domains_def cd_sys_def cd_sys4x_def cd_clk200_def
      cd_ic_def cd_pll4x_def ClockDomain_def crg_signals_def)

theorem reset_less_domains_never_held_witness:
  "\<not> held_in_reset (crg_signals crg_init pins_cpu_reset True True) cd_sys4x \<and>
   \<not> held_in_reset (crg_signals crg_init pins_cpu_reset True True) cd_pll4x \<and>
   held_in_reset (crg_signals crg_init pins_cpu_reset True True) cd_sys = sys_rst crg_init"
proof -
  note t = reset_less_domains_never_held [of "crg_signals crg_init pins_cpu_reset True True" crg_init pins_cpu_reset True True]
  note r1 = t [THEN conjunct2, THEN conjunct2, THEN conjunct1]
  note r2 = t [THEN conjunct2, THEN conjunct2, THEN conjunct2, THEN conjunct1]
  note r3 = t [THEN conjunct2, THEN conjunct2, THEN conjunct2, THEN conjunct2, THEN conjunct2,
      THEN conjunct1]
  show ?thesis
    by (rule conjI [OF r1 conjI [OF r2 r3]])
qed

end
